theory Spec2Isabelle
  imports Main "HOL-Library.Sublist" "HOL-Library.Multiset"
begin

section \<open>JavaScript strings\<close>

text \<open>
  A JavaScript string is a sequence of 16-bit code units. Paths, module names and
  documentation comments meet only ASCII literals in the generator (\<^verbatim>\<open>/mdc-\<close>, \<^verbatim>\<open>/\<close>,
  \<^verbatim>\<open>foundation\<close>, \<^verbatim>\<open>adapter\<close>, the line feed of \<^verbatim>\<open>cleanComment\<close>); they are written
  as \<^typ>\<open>string\<close>, one \<^typ>\<open>char\<close> for one code unit in the range 0..255. The README text
  and the rendered fragment are matched against a regular expression with \<^verbatim>\<open>.\<close> and the
  flag \<^verbatim>\<open>m\<close>, for which U+2028 and U+2029 are line terminators as LF and CR are; they
  are sequences of \<open>code_unit\<close>, a code unit written as its high and its low byte.
\<close>

abbreviation LF :: char where "LF \<equiv> CHR 0x0A"
abbreviation CR :: char where "CR \<equiv> CHR 0x0D"

datatype code_unit = Unit char char

type_synonym js_string = "code_unit list"

abbreviation unit_of :: "char \<Rightarrow> code_unit" where
  "unit_of c \<equiv> Unit (CHR 0x00) c"

abbreviation U_LF :: code_unit where "U_LF \<equiv> unit_of LF"
abbreviation U_CR :: code_unit where "U_CR \<equiv> unit_of CR"
abbreviation U_LS :: code_unit where "U_LS \<equiv> Unit (CHR 0x20) (CHR 0x28)"
abbreviation U_PS :: code_unit where "U_PS \<equiv> Unit (CHR 0x20) (CHR 0x29)"

text \<open>A string literal of the source, all of whose code units are below 256.\<close>

definition units :: "string \<Rightarrow> js_string" where
  "units s = map unit_of s"

text \<open>The \<^verbatim>\<open>LineTerminator\<close> of ECMAScript: LF, CR, U+2028 and U+2029.\<close>

definition is_line_terminator :: "code_unit \<Rightarrow> bool" where
  "is_line_terminator u = (u = U_LF \<or> u = U_CR \<or> u = U_LS \<or> u = U_PS)"

text \<open>\<^verbatim>\<open>s.indexOf(sub)\<close>: the first index at which \<open>sub\<close> occurs, or -1.\<close>

fun indexOf_from :: "string \<Rightarrow> string \<Rightarrow> int \<Rightarrow> int" where
  "indexOf_from [] sub i = (if sub = [] then i else -1)"
| "indexOf_from (c # cs) sub i =
     (if prefix sub (c # cs) then i else indexOf_from cs sub (i + 1))"

definition indexOf :: "string \<Rightarrow> string \<Rightarrow> int" where
  "indexOf s sub = indexOf_from s sub 0"

text \<open>\<^verbatim>\<open>s.lastIndexOf(sub)\<close>: the last index at which \<open>sub\<close> occurs, or -1.\<close>

fun lastIndexOf_from :: "string \<Rightarrow> string \<Rightarrow> int \<Rightarrow> int \<Rightarrow> int" where
  "lastIndexOf_from [] sub i best = (if sub = [] then i else best)"
| "lastIndexOf_from (c # cs) sub i best =
     lastIndexOf_from cs sub (i + 1) (if prefix sub (c # cs) then i else best)"

definition lastIndexOf :: "string \<Rightarrow> string \<Rightarrow> int" where
  "lastIndexOf s sub = lastIndexOf_from s sub 0 (-1)"

text \<open>\<^verbatim>\<open>s.includes(sub)\<close>.\<close>

definition js_includes :: "string \<Rightarrow> string \<Rightarrow> bool" where
  "js_includes s sub = (indexOf s sub \<noteq> -1)"

text \<open>
  \<^verbatim>\<open>s.substring(start, end)\<close>: both indices are clamped to \<open>0..length\<close>, and swapped
  when the first is the larger one.
\<close>

definition substring :: "string \<Rightarrow> int \<Rightarrow> int \<Rightarrow> string" where
  "substring s startIndex endIndex =
     (let len = int (length s);
          finalStart = min (max startIndex 0) len;
          finalEnd = min (max endIndex 0) len;
          lo = min finalStart finalEnd;
          hi = max finalStart finalEnd
      in take (nat (hi - lo)) (drop (nat lo) s))"

text \<open>
  \<^verbatim>\<open>s.toLowerCase()\<close> on code units 0..255: the ASCII capitals and the Latin-1 capitals
  (U+00C0..U+00DE without the multiplication sign U+00D7) move up by 32.
\<close>

definition lower_char :: "char \<Rightarrow> char" where
  "lower_char c =
     (let n = (of_char c :: nat)
      in if (65 \<le> n \<and> n \<le> 90) \<or> (192 \<le> n \<and> n \<le> 222 \<and> n \<noteq> 215)
         then char_of (n + 32) else c)"

definition toLowerCase :: "string \<Rightarrow> string" where
  "toLowerCase s = map lower_char s"

text \<open>\<^verbatim>\<open>a > b\<close> on strings: lexicographic on code units.\<close>

fun js_gt :: "string \<Rightarrow> string \<Rightarrow> bool" where
  "js_gt [] bs = False"
| "js_gt (a # as) [] = True"
| "js_gt (a # as) (b # bs) =
     (if a = b then js_gt as bs else (of_char b :: nat) < of_char a)"


section \<open>The documentation data\<close>

text \<open>Reading a property of \<^verbatim>\<open>undefined\<close> throws a \<^verbatim>\<open>TypeError\<close>; a call for
  which the call stack has no room throws a \<^verbatim>\<open>RangeError\<close>.\<close>

datatype js_error = TypeError | RangeError

record ModuleEvents =
  ev_documentation :: "string option"

record ModuleMethods =
  methodSignature :: string
  mm_documentation :: string

record ModuleProperties =
  mp_name :: string
  mp_type :: string
  mp_documentation :: string

record ModuleDocumentation =
  events :: "ModuleEvents list"

record ModuleMarkdown =
  md_methods :: "ModuleMethods list"
  md_events :: "ModuleEvents list"
  md_properties :: "ModuleProperties list"
  moduleName :: string
  readmeDirectoryPath :: string

record DocumentationContent =
  tag :: "string option"
  val :: "string option"

text \<open>
  The records of the extraction engine, with the fields the generator reads. A field that
  may be \<^verbatim>\<open>undefined\<close> is an option.
\<close>

record doc_block =
  contentsRaw :: string
  contents :: "DocumentationContent list option"

record item_flags =
  isProtected :: bool
  isStatic :: bool

record raw_signature =
  sig_type :: string
  sig_documentation :: "doc_block option"

record raw_method =
  m_name :: string
  m_flags :: "item_flags option"
  signatures :: "raw_signature list"

record raw_property =
  p_name :: string
  p_type :: string
  p_flags :: "item_flags option"
  p_documentation :: "doc_block option"

record raw_module =
  kind :: string
  fileName :: string
  documentation :: "doc_block option"
  methods :: "raw_method list option"
  properties :: "raw_property list option"

type_synonym doc_data = "(string \<rightharpoonup> raw_module) option"


section \<open>The transformer\<close>

text \<open>\<^verbatim>\<open>cleanComment\<close>: \<^verbatim>\<open>comment.replace(/\n/gm, ' ')\<close>, a scan that writes a space for
  every match of the one-character pattern and copies every other code unit.\<close>

fun cleanComment :: "string \<Rightarrow> string" where
  "cleanComment [] = []"
| "cleanComment (c # cs) = (if c = LF then CHR '' '' # cleanComment cs else c # cleanComment cs)"

text \<open>\<^verbatim>\<open>shouldIgnoreDocumentationItem\<close>: the truth value of
  \<^verbatim>\<open>!isProtected && !isStatic && opts.hasDocumentation\<close>; destructuring the flags of an item
  without flags throws.\<close>

definition shouldIgnoreDocumentationItem :: "item_flags option \<Rightarrow> bool \<Rightarrow> js_error + bool" where
  "shouldIgnoreDocumentationItem flags hasDocumentation =
     (case flags of
        None \<Rightarrow> Inl TypeError
      | Some f \<Rightarrow> Inr (\<not> isProtected f \<and> \<not> isStatic f \<and> hasDocumentation))"

text \<open>\<^verbatim>\<open>Array.prototype.filter\<close> and \<^verbatim>\<open>map\<close> with a callback that may throw: the first
  exception ends the traversal.\<close>

fun filterE :: "('a \<Rightarrow> js_error + bool) \<Rightarrow> 'a list \<Rightarrow> js_error + 'a list" where
  "filterE p [] = Inr []"
| "filterE p (x # xs) =
     (case p x of
        Inl e \<Rightarrow> Inl e
      | Inr b \<Rightarrow> (case filterE p xs of
                   Inl e \<Rightarrow> Inl e
                 | Inr ys \<Rightarrow> Inr (if b then x # ys else ys)))"

fun mapE :: "('a \<Rightarrow> js_error + 'b) \<Rightarrow> 'a list \<Rightarrow> js_error + 'b list" where
  "mapE f [] = Inr []"
| "mapE f (x # xs) =
     (case f x of
        Inl e \<Rightarrow> Inl e
      | Inr y \<Rightarrow> (case mapE f xs of Inl e \<Rightarrow> Inl e | Inr ys \<Rightarrow> Inr (y # ys)))"

text \<open>The filter callback of \<^verbatim>\<open>getDocumentationForMethods\<close>: the argument
  \<^verbatim>\<open>method.signatures[0].documentation\<close> is read first.\<close>

definition method_filter :: "raw_method \<Rightarrow> js_error + bool" where
  "method_filter m =
     (case signatures m of
        [] \<Rightarrow> Inl TypeError
      | s # _ \<Rightarrow> shouldIgnoreDocumentationItem (m_flags m) (sig_documentation s \<noteq> None))"

definition method_row :: "raw_method \<Rightarrow> js_error + ModuleMethods" where
  "method_row m =
     (case signatures m of
        [] \<Rightarrow> Inl TypeError
      | s # _ \<Rightarrow>
          (case sig_documentation s of
             None \<Rightarrow> Inl TypeError
           | Some d \<Rightarrow>
               Inr \<lparr>methodSignature = m_name m @ sig_type s,
                    mm_documentation = cleanComment (contentsRaw d)\<rparr>))"

definition getDocumentationForMethods :: "doc_data \<Rightarrow> string \<Rightarrow> js_error + ModuleMethods list" where
  "getDocumentationForMethods docData esmodule =
     (case docData of
        None \<Rightarrow> Inr []
      | Some dd \<Rightarrow>
          (case dd esmodule of
             None \<Rightarrow> Inl TypeError
           | Some r \<Rightarrow>
               (case methods r of
                  None \<Rightarrow> Inr []
                | Some ms \<Rightarrow>
                    (case filterE method_filter ms of
                       Inl e \<Rightarrow> Inl e
                     | Inr kept \<Rightarrow> mapE method_row kept))))"

definition property_filter :: "raw_property \<Rightarrow> js_error + bool" where
  "property_filter p = shouldIgnoreDocumentationItem (p_flags p) (p_documentation p \<noteq> None)"

definition property_row :: "raw_property \<Rightarrow> js_error + ModuleProperties" where
  "property_row p =
     (case p_documentation p of
        None \<Rightarrow> Inl TypeError
      | Some d \<Rightarrow>
          Inr \<lparr>mp_name = p_name p, mp_type = p_type p,
               mp_documentation = cleanComment (contentsRaw d)\<rparr>)"

definition getDocumentationProperties :: "doc_data \<Rightarrow> string \<Rightarrow> js_error + ModuleProperties list" where
  "getDocumentationProperties docData esmodule =
     (case docData of
        None \<Rightarrow> Inr []
      | Some dd \<Rightarrow>
          (case dd esmodule of
             None \<Rightarrow> Inl TypeError
           | Some r \<Rightarrow>
               (case properties r of
                  None \<Rightarrow> Inr []
                | Some ps \<Rightarrow>
                    (case filterE property_filter ps of
                       Inl e \<Rightarrow> Inl e
                     | Inr kept \<Rightarrow> mapE property_row kept))))"

text \<open>\<^verbatim>\<open>getDocumentationForEvents\<close> dereferences \<^verbatim>\<open>documentation.contents\<close> without a
  check of its own.\<close>

definition getDocumentationForEvents :: "doc_data \<Rightarrow> string \<Rightarrow> js_error + ModuleEvents list" where
  "getDocumentationForEvents docData esmodule =
     (case docData of
        None \<Rightarrow> Inl TypeError
      | Some dd \<Rightarrow>
          (case dd esmodule of
             None \<Rightarrow> Inl TypeError
           | Some r \<Rightarrow>
               (case documentation r of
                  None \<Rightarrow> Inl TypeError
                | Some d \<Rightarrow>
                    (case contents d of
                       None \<Rightarrow> Inl TypeError
                     | Some cs \<Rightarrow>
                         Inr (map (\<lambda>content. \<lparr>ev_documentation = val content\<rparr>)
                               (filter (\<lambda>content. tag content = Some ''events'') cs))))))"

definition getDocumentationForModule :: "doc_data \<Rightarrow> string \<Rightarrow> js_error + ModuleDocumentation" where
  "getDocumentationForModule docData esmodule =
     (case docData of
        None \<Rightarrow> Inr \<lparr>events = []\<rparr>
      | Some dd \<Rightarrow>
          (case dd esmodule of
             None \<Rightarrow> Inl TypeError
           | Some r \<Rightarrow>
               (case documentation r of
                  None \<Rightarrow> Inr \<lparr>events = []\<rparr>
                | Some d \<Rightarrow>
                    (case contents d of
                       None \<Rightarrow> Inr \<lparr>events = []\<rparr>
                     | Some _ \<Rightarrow>
                         (case getDocumentationForEvents docData esmodule of
                            Inl e \<Rightarrow> Inl e
                          | Inr evs \<Rightarrow> Inr \<lparr>events = evs\<rparr>)))))"

text \<open>The members the filter keeps: documented on the first signature (a method) or on
  the property itself, and neither protected nor static.\<close>

definition method_kept :: "raw_method \<Rightarrow> bool" where
  "method_kept m =
     (case (m_flags m, signatures m) of
        (Some f, s # _) \<Rightarrow> sig_documentation s \<noteq> None \<and> \<not> isProtected f \<and> \<not> isStatic f
      | _ \<Rightarrow> False)"

definition property_kept :: "raw_property \<Rightarrow> bool" where
  "property_kept p =
     (case p_flags p of
        Some f \<Rightarrow> p_documentation p \<noteq> None \<and> \<not> isProtected f \<and> \<not> isStatic f
      | None \<Rightarrow> False)"

text \<open>The shape the extraction engine gives every member: flags, and for a method at least
  one signature.\<close>

definition method_well_formed :: "raw_method \<Rightarrow> bool" where
  "method_well_formed m = (m_flags m \<noteq> None \<and> signatures m \<noteq> [])"

definition property_well_formed :: "raw_property \<Rightarrow> bool" where
  "property_well_formed p = (p_flags p \<noteq> None)"


section \<open>Directory resolution\<close>

definition README_FILE :: string where
  "README_FILE = ''README.md''"

text \<open>
  \<^verbatim>\<open>getFilePathName\<close>. The file system is the parameter \<open>readmeExists\<close>: whether
  \<^verbatim>\<open>fs.existsSync(path.resolve('packages', directoryPath, README_FILE))\<close> holds for a
  directory path. Neither library call throws on a string. The recursive call stands
  inside the \<^verbatim>\<open>try\<close> block, and the recursion has no base case of its own: where no
  directory has a README it ends only when the call stack is used up. \<open>stack\<close> is the
  number of calls of \<^verbatim>\<open>getFilePathName\<close> the call stack still has room for; a call
  without room throws a \<^verbatim>\<open>RangeError\<close>, which the \<^verbatim>\<open>catch\<close> block of the calling frame
  logs, and that frame goes on to \<^verbatim>\<open>return ''\<close>. (Where the stack has no room for the
  call of \<^verbatim>\<open>console.error\<close> either, the error goes one frame further down and is caught
  there in the same way.)
\<close>

definition directoryPath_of :: "string \<Rightarrow> string" where
  "directoryPath_of filePath =
     (let startingIndex = indexOf filePath ''/mdc-'' + 1;
          endIndex = lastIndexOf filePath ''/''
      in substring filePath startingIndex endIndex)"

fun getFilePathName :: "(string \<Rightarrow> bool) \<Rightarrow> nat \<Rightarrow> string \<Rightarrow> js_error + string" where
  "getFilePathName readmeExists 0 filePath = Inl RangeError"
| "getFilePathName readmeExists (Suc stack) filePath =
     (if readmeExists (directoryPath_of filePath)
      then Inr (directoryPath_of filePath)
      else (case getFilePathName readmeExists stack (directoryPath_of filePath) of
              Inl err \<Rightarrow> Inr ''''
            | Inr found \<Rightarrow> Inr found))"


section \<open>The accumulator\<close>

text \<open>\<^verbatim>\<open>markdownBuffer\<close>: an object used as a dictionary, here the list of its entries in
  insertion order, one entry for each key.\<close>

type_synonym markdown_buffer = "(string \<times> ModuleMarkdown list) list"


section \<open>The renderer's sort and filter\<close>

definition FOUNDATION :: string where
  "FOUNDATION = ''foundation''"

definition ADAPTER :: string where
  "ADAPTER = ''adapter''"

definition sortByModuleType :: "ModuleMarkdown \<Rightarrow> ModuleMarkdown \<Rightarrow> int" where
  "sortByModuleType a b =
     (let moduleA = toLowerCase (moduleName a);
          moduleB = toLowerCase (moduleName b)
      in if \<not> js_includes moduleA FOUNDATION \<and> \<not> js_includes moduleA ADAPTER then -1
         else if js_includes moduleA FOUNDATION \<and> \<not> js_includes moduleB FOUNDATION then 1
         else if js_includes moduleA FOUNDATION \<and> js_includes moduleB FOUNDATION
                 \<or> js_includes moduleA ADAPTER \<and> js_includes moduleB ADAPTER
              then (if js_gt moduleA moduleB then 1 else -1)
         else 0)"

text \<open>
  \<^verbatim>\<open>Array.prototype.sort\<close> belongs to the engine and is a parameter
  \<open>engine_sort\<close>: whatever the comparator, it returns a permutation of the array, and
  nothing else is assumed of it. \<open>insertion_sort\<close> is one function of that kind, for
  the places where an example needs a concrete one; it is not the algorithm of any
  engine, and with a comparator that is not consistent another sort may return another
  permutation.
\<close>

type_synonym 'a array_sort = "('a \<Rightarrow> 'a \<Rightarrow> int) \<Rightarrow> 'a list \<Rightarrow> 'a list"

definition is_array_sort :: "'a array_sort \<Rightarrow> bool" where
  "is_array_sort engine_sort = (\<forall>cmp xs. mset (engine_sort cmp xs) = mset xs)"

fun insert_from_right :: "('a \<Rightarrow> 'a \<Rightarrow> int) \<Rightarrow> 'a \<Rightarrow> 'a list \<Rightarrow> 'a list" where
  "insert_from_right cmp x [] = [x]"
| "insert_from_right cmp x (y # ys) =
     (if 0 < cmp y x then y # insert_from_right cmp x ys else x # y # ys)"

definition insertion_sort :: "'a array_sort" where
  "insertion_sort cmp xs = rev (foldl (\<lambda>sorted_rev x. insert_from_right cmp x sorted_rev) [] xs)"

definition has_members :: "ModuleMarkdown \<Rightarrow> bool" where
  "has_members m = (md_methods m \<noteq> [] \<or> md_properties m \<noteq> [] \<or> md_events m \<noteq> [])"

text \<open>The value of \<^verbatim>\<open>modules\<close> in \<^verbatim>\<open>insertMethodDescriptionTable\<close>: the argument of the
  template function.\<close>

definition template_modules :: "ModuleMarkdown array_sort \<Rightarrow> ModuleMarkdown list \<Rightarrow> ModuleMarkdown list" where
  "template_modules engine_sort buffered = engine_sort sortByModuleType (filter has_members buffered)"


section \<open>The writer's regular expression\<close>

definition startReplacerToken :: js_string where
  "startReplacerToken =
     units ''<!-- docgen-tsdoc-replacer:start __DO NOT EDIT, This section is automatically generated__ -->''"

definition endReplacerToken :: js_string where
  "endReplacerToken = units ''<!-- docgen-tsdoc-replacer:end -->''"

text \<open>
  The pattern is \<^verbatim>\<open>^START\n(.|\n)*END$\<close> with the flags \<^verbatim>\<open>gm\<close>; no character of the two
  tokens is special in a pattern. \<^verbatim>\<open>.\<close> matches every code unit but a line terminator,
  so the group \<^verbatim>\<open>(.|\n)\<close> matches every code unit but CR, U+2028 and U+2029. With the
  flag \<^verbatim>\<open>m\<close>, \<^verbatim>\<open>^\<close> holds at the start of the input and after a line terminator,
  \<^verbatim>\<open>$\<close> at the end of the input and before a line terminator.
\<close>

definition matches_dot :: "code_unit \<Rightarrow> bool" where
  "matches_dot u = (\<not> is_line_terminator u)"

definition matches_group :: "code_unit \<Rightarrow> bool" where
  "matches_group u = (matches_dot u \<or> u = U_LF)"

definition at_line_start :: "js_string \<Rightarrow> bool" where
  "at_line_start consumed = (consumed = [] \<or> is_line_terminator (last consumed))"

definition at_line_end :: "js_string \<Rightarrow> bool" where
  "at_line_end rest = (case rest of [] \<Rightarrow> True | u # _ \<Rightarrow> is_line_terminator u)"

text \<open>\<^verbatim>\<open>END$\<close> at the head of the input: the rest after the token.\<close>

definition match_end :: "js_string \<Rightarrow> (js_string \<times> js_string) option" where
  "match_end t =
     (if prefix endReplacerToken t \<and> at_line_end (drop (length endReplacerToken) t)
      then Some ([], drop (length endReplacerToken) t) else None)"

text \<open>
  \<^verbatim>\<open>(.|\n)*END$\<close> by backtracking: the star is greedy, so one more iteration is tried
  first, and the end token here only when that fails. The result is what the star
  consumed and the rest after the end token.
\<close>

fun match_body :: "js_string \<Rightarrow> (js_string \<times> js_string) option" where
  "match_body [] = match_end []"
| "match_body (c # cs) =
     (if matches_group c
      then (case match_body cs of
              Some (body, rest) \<Rightarrow> Some (c # body, rest)
            | None \<Rightarrow> match_end (c # cs))
      else match_end (c # cs))"

text \<open>The pattern after \<^verbatim>\<open>^\<close>, at the head of the input.\<close>

definition match_here :: "js_string \<Rightarrow> (js_string \<times> js_string) option" where
  "match_here t =
     (if prefix (startReplacerToken @ [U_LF]) t
      then match_body (drop (length startReplacerToken + 1) t)
      else None)"

definition matched_text :: "js_string \<Rightarrow> js_string" where
  "matched_text body = startReplacerToken @ [U_LF] @ body @ endReplacerToken"

text \<open>The capture of the group: its last iteration, undefined when the star made none.\<close>

definition capture_of :: "js_string \<Rightarrow> js_string option" where
  "capture_of body = (if body = [] then None else Some [last body])"

text \<open>
  \<^verbatim>\<open>GetSubstitution\<close> of ECMAScript for a pattern with one capture and no named group:
  \<^verbatim>\<open>$$\<close> is a dollar, \<^verbatim>\<open>$&\<close> the match, \<^verbatim>\<open>$`\<close> the input before it, \<^verbatim>\<open>$'\<close> the input
  after it, \<^verbatim>\<open>$1\<close> and \<^verbatim>\<open>$01\<close> the capture (empty when undefined); every other dollar
  stands for itself.
\<close>

fun getSubstitution ::
  "js_string \<Rightarrow> js_string \<Rightarrow> js_string \<Rightarrow> js_string option \<Rightarrow> js_string \<Rightarrow> js_string" where
  "getSubstitution matched preceding following capture [] = []"
| "getSubstitution matched preceding following capture [x] = [x]"
| "getSubstitution matched preceding following capture (x # y # rest) =
     (if x \<noteq> unit_of (CHR ''$'')
        then x # getSubstitution matched preceding following capture (y # rest)
      else if y = unit_of (CHR ''$'')
        then unit_of (CHR ''$'') # getSubstitution matched preceding following capture rest
      else if y = unit_of (CHR ''&'')
        then matched @ getSubstitution matched preceding following capture rest
      else if y = unit_of (CHR 0x60)
        then preceding @ getSubstitution matched preceding following capture rest
      else if y = unit_of (CHR 0x27)
        then following @ getSubstitution matched preceding following capture rest
      else if y = unit_of (CHR ''1'')
        then (case capture of None \<Rightarrow> [] | Some s \<Rightarrow> s)
               @ getSubstitution matched preceding following capture rest
      else if y = unit_of (CHR ''0'') \<and> rest \<noteq> [] \<and> hd rest = unit_of (CHR ''1'')
        then (case capture of None \<Rightarrow> [] | Some s \<Rightarrow> s)
               @ getSubstitution matched preceding following capture (tl rest)
      else unit_of (CHR ''$'') # getSubstitution matched preceding following capture (y # rest))"

text \<open>
  \<^verbatim>\<open>input.replace(regex, template)\<close> with the flag \<^verbatim>\<open>g\<close>: the scan takes the leftmost
  match, writes its substitution, and goes on behind the match.
\<close>

function replace_scan :: "js_string \<Rightarrow> js_string \<Rightarrow> js_string \<Rightarrow> js_string" where
  "replace_scan template consumed [] = []"
| "replace_scan template consumed (c # cs) =
     (case (if at_line_start consumed then match_here (c # cs) else None) of
        Some (body, rest) \<Rightarrow>
          getSubstitution (matched_text body) consumed rest (capture_of body) template
            @ replace_scan template (consumed @ matched_text body) rest
      | None \<Rightarrow> c # replace_scan template (consumed @ [c]) cs)"
  by pat_completeness auto

definition js_replace :: "js_string \<Rightarrow> js_string \<Rightarrow> js_string" where
  "js_replace input template = replace_scan template [] input"

text \<open>The writer's splice: the replacement of \<^verbatim>\<open>insertMethodDescriptionTable\<close> for a
  rendered table.\<close>

definition replacement_template :: "js_string \<Rightarrow> js_string" where
  "replacement_template apiMarkdownTable =
     startReplacerToken @ [U_LF] @ apiMarkdownTable @ [U_LF] @ endReplacerToken"

definition splice :: "js_string \<Rightarrow> js_string \<Rightarrow> js_string" where
  "splice readmeMd apiMarkdownTable = js_replace readmeMd (replacement_template apiMarkdownTable)"


text \<open>
  \<^verbatim>\<open>insertMethodDescriptionTable\<close>, after the README has been read. The template function
  is compiled by the template engine and is a parameter.
\<close>

definition insertMethodDescriptionTable ::
  "ModuleMarkdown array_sort \<Rightarrow> (ModuleMarkdown list \<Rightarrow> js_string) \<Rightarrow> js_string
     \<Rightarrow> ModuleMarkdown list \<Rightarrow> js_string" where
  "insertMethodDescriptionTable engine_sort templateFunction readmeMd buffered =
     splice readmeMd (templateFunction (template_modules engine_sort buffered))"


section \<open>Writing the READMEs\<close>

datatype fs_effect = ReadFile string | WriteFile string js_string

definition allowList :: "string list" where
  "allowList = [''mdc-drawer'']"

definition allowed :: "string \<Rightarrow> bool" where
  "allowed directoryPath = list_ex (\<lambda>a. js_includes directoryPath a) allowList"

definition readme_path :: "string \<Rightarrow> string" where
  "readme_path directoryPath = ''./packages/'' @ directoryPath @ ''/'' @ README_FILE"

text \<open>
  \<^verbatim>\<open>generateMarkdownFileFromBuffer\<close> as the list of its file operations, in order.
  \<open>readFile\<close> is the file system; where it fails, the promise of
  \<^verbatim>\<open>insertMethodDescriptionTable\<close> is never resolved and the loop goes no further.
\<close>

fun generateMarkdownFileFromBuffer ::
  "ModuleMarkdown array_sort \<Rightarrow> (ModuleMarkdown list \<Rightarrow> js_string) \<Rightarrow> (string \<Rightarrow> js_string option)
     \<Rightarrow> markdown_buffer \<Rightarrow> fs_effect list" where
  "generateMarkdownFileFromBuffer engine_sort templateFunction readFile [] = []"
| "generateMarkdownFileFromBuffer engine_sort templateFunction readFile ((directoryPath, buffered) # entries) =
     (if allowed directoryPath
      then (case readFile (readme_path directoryPath) of
              None \<Rightarrow> [ReadFile (readme_path directoryPath)]
            | Some readmeMd \<Rightarrow>
                ReadFile (readme_path directoryPath)
                  # WriteFile (readme_path directoryPath)
                      (insertMethodDescriptionTable engine_sort templateFunction readmeMd buffered)
                  # generateMarkdownFileFromBuffer engine_sort templateFunction readFile entries)
      else generateMarkdownFileFromBuffer engine_sort templateFunction readFile entries)"


section \<open>Fragments and stretches of input\<close>


text \<open>A scan that has consumed \<open>consumed\<close> finds no match that starts in the next stretch of
  the input, with \<open>behind\<close> the input after that stretch.\<close>

fun no_match_in :: "js_string \<Rightarrow> js_string \<Rightarrow> js_string \<Rightarrow> bool" where
  "no_match_in consumed [] behind = True"
| "no_match_in consumed (c # cs) behind =
     ((at_line_start consumed \<longrightarrow> match_here (c # cs @ behind) = None)
      \<and> no_match_in (consumed @ [c]) cs behind)"


section \<open>Example inputs\<close>

definition undocumented_module :: raw_module where
  "undocumented_module =
     \<lparr>kind = ''class'', fileName = ''packages/mdc-drawer/foundation.ts'',
      documentation = None, methods = None, properties = None\<rparr>"

definition drawer_methods :: "raw_method list" where
  "drawer_methods =
     [\<lparr>m_name = ''open'', m_flags = Some \<lparr>isProtected = False, isStatic = False\<rparr>,
       signatures = [\<lparr>sig_type = ''() => void'',
                      sig_documentation = Some \<lparr>contentsRaw = ''Opens'' @ [LF] @ ''the drawer.'',
                                                 contents = None\<rparr>\<rparr>]\<rparr>,
      \<lparr>m_name = ''notify'', m_flags = Some \<lparr>isProtected = True, isStatic = False\<rparr>,
       signatures = [\<lparr>sig_type = ''() => void'',
                      sig_documentation = Some \<lparr>contentsRaw = ''Internal.'', contents = None\<rparr>\<rparr>]\<rparr>,
      \<lparr>m_name = ''close'', m_flags = Some \<lparr>isProtected = False, isStatic = False\<rparr>,
       signatures = [\<lparr>sig_type = ''() => void'', sig_documentation = None\<rparr>]\<rparr>]"

definition drawer_properties :: "raw_property list" where
  "drawer_properties =
     [\<lparr>p_name = ''open'', p_type = ''boolean'',
       p_flags = Some \<lparr>isProtected = False, isStatic = False\<rparr>,
       p_documentation = Some \<lparr>contentsRaw = ''Whether the drawer is open.'', contents = None\<rparr>\<rparr>,
      \<lparr>p_name = ''strings'', p_type = ''object'',
       p_flags = Some \<lparr>isProtected = False, isStatic = True\<rparr>,
       p_documentation = Some \<lparr>contentsRaw = ''Static.'', contents = None\<rparr>\<rparr>]"

definition drawer_module :: raw_module where
  "drawer_module =
     \<lparr>kind = ''class'', fileName = ''packages/mdc-drawer/component.ts'',
      documentation = None, methods = Some drawer_methods, properties = Some drawer_properties\<rparr>"

definition named :: "string \<Rightarrow> ModuleMarkdown" where
  "named n = \<lparr>md_methods = [], md_events = [], md_properties = [], moduleName = n,
              readmeDirectoryPath = ''mdc-drawer''\<rparr>"

definition with_method :: "string \<Rightarrow> ModuleMarkdown" where
  "with_method n = (named n)\<lparr>md_methods := [\<lparr>methodSignature = ''open() => void'',
                                             mm_documentation = ''Opens the drawer.''\<rparr>]\<rparr>"


definition example_buffer :: markdown_buffer where
  "example_buffer =
     [('''', [with_method ''MDCOrphan'']),
      (''mdc-drawer'', [named ''MDCDrawerAdapter'', with_method ''MDCDrawer'']),
      (''mdc-textfield'', [with_method ''MDCTextField''])]"

definition example_template :: "ModuleMarkdown list \<Rightarrow> js_string" where
  "example_template modules = units (concat (map (\<lambda>m. ''### '' @ moduleName m) modules))"

definition example_readFile :: "string \<Rightarrow> js_string option" where
  "example_readFile path = Some (units ''# README'' @ [U_LF])"





text \<open>A fragment with a dollar that starts no substitution pattern, and one with CRLF line
  ends.\<close>

definition example_table :: js_string where
  "example_table = units ''| open() => void | Opens the drawer in $5 steps. |''"


definition plain_readme :: js_string where
  "plain_readme = units ''# Drawer'' @ [U_LF] @ units ''No generated section.'' @ [U_LF]"






section \<open>The matcher consumes input\<close>

lemma match_end_length:
  "match_end t = Some (body, rest) \<Longrightarrow> length rest < length t"
  by (auto simp: match_end_def endReplacerToken_def units_def prefix_def split: if_splits)

lemma match_body_length:
  "match_body t = Some (body, rest) \<Longrightarrow> length rest < length t"
proof (induction t arbitrary: body)
  case Nil
  then show ?case by (auto dest: match_end_length)
next
  case (Cons c cs)
  then show ?case
    by (fastforce split: if_splits option.splits dest: match_end_length)
qed

lemma match_here_length:
  "match_here t = Some (body, rest) \<Longrightarrow> length rest < length t"
  by (auto simp: match_here_def split: if_splits dest!: match_body_length)

termination replace_scan
proof (relation "measure (\<lambda>(template, consumed, input). length input)")
  show "wf (measure (\<lambda>(template, consumed, input). length input))"
    by simp
next
  fix template consumed :: js_string and c cs x2 body rest
  assume "(if at_line_start consumed then match_here (c # cs) else None) = Some x2"
    and "(body, rest) = x2"
  then have "match_here (c # cs) = Some (body, rest)"
    by (simp split: if_splits)
  then show "((template, consumed @ matched_text body, rest), template, consumed, c # cs)
               \<in> measure (\<lambda>(template, consumed, input). length input)"
    by (auto dest: match_here_length)
next
  fix template consumed :: js_string and c cs
  show "((template, consumed @ [c], cs), template, consumed, c # cs)
          \<in> measure (\<lambda>(template, consumed, input). length input)"
    by simp
qed


section \<open>Comment cleaning\<close>

lemma cleanComment_map:
  "cleanComment s = map (\<lambda>c. if c = LF then CHR '' '' else c) s"
  by (induction s) simp_all

text \<open>
  Claim C7. For every documentation string, \<^verbatim>\<open>cleanComment\<close> writes one space for every
  newline and copies every other code unit: the output has no newline, has the length
  of the input, and differs from it only where the input has a newline.
\<close>

theorem cleanComment_replaces_newlines:
  "cleanComment s = map (\<lambda>c. if c = LF then CHR '' '' else c) s
   \<and> LF \<notin> set (cleanComment s)
   \<and> length (cleanComment s) = length s"
proof (intro conjI)
  show "cleanComment s = map (\<lambda>c. if c = LF then CHR '' '' else c) s"
    by (rule cleanComment_map)
  show "LF \<notin> set (cleanComment s)"
    by (induction s) simp_all
  show "length (cleanComment s) = length s"
    by (induction s) simp_all
qed

section \<open>Module documentation without contents\<close>

lemma getDocumentationForModule_empty_contents:
  assumes "dd esmodule = Some r" and "documentation r = Some d" and "contents d = Some []"
  shows "getDocumentationForModule (Some dd) esmodule = Inr \<lparr>events = []\<rparr>"
  using assms by (simp add: getDocumentationForModule_def getDocumentationForEvents_def)

text \<open>
  Claim C10. For a module record without a documentation field, or whose documentation
  has no contents, \<^verbatim>\<open>getDocumentationForModule\<close> returns the record with the empty
  events list and does not fail, although \<^verbatim>\<open>getDocumentationForEvents\<close>, the branch that
  dereferences \<^verbatim>\<open>documentation.contents\<close>, would throw on the same record: that branch is
  not taken.
\<close>

theorem getDocumentationForModule_without_contents:
  assumes "dd esmodule = Some r"
    and "documentation r = None \<or> (\<exists>d. documentation r = Some d \<and> contents d = None)"
  shows "getDocumentationForModule (Some dd) esmodule = Inr \<lparr>events = []\<rparr>
         \<and> getDocumentationForEvents (Some dd) esmodule = Inl TypeError"
  using assms
  by (auto simp: getDocumentationForModule_def getDocumentationForEvents_def)

theorem getDocumentationForModule_without_contents_witness:
  "[''MDCDrawer'' \<mapsto> undocumented_module] ''MDCDrawer'' = Some undocumented_module
   \<and> (documentation undocumented_module = None
        \<or> (\<exists>d. documentation undocumented_module = Some d \<and> contents d = None))
   \<and> getDocumentationForModule (Some [''MDCDrawer'' \<mapsto> undocumented_module]) ''MDCDrawer''
        = Inr \<lparr>events = []\<rparr>
   \<and> getDocumentationForEvents (Some [''MDCDrawer'' \<mapsto> undocumented_module]) ''MDCDrawer''
        = Inl TypeError"
proof -
  have h1: "[''MDCDrawer'' \<mapsto> undocumented_module] ''MDCDrawer'' = Some undocumented_module"
    by simp
  have h2: "documentation undocumented_module = None
        \<or> (\<exists>d. documentation undocumented_module = Some d \<and> contents d = None)"
    by (simp add: undocumented_module_def)
  show ?thesis
    using getDocumentationForModule_without_contents
            [of "[''MDCDrawer'' \<mapsto> undocumented_module]" "''MDCDrawer''" undocumented_module]
          h1 h2
    by blast
qed

section \<open>The member filter\<close>

lemma filterE_total:
  "\<forall>x\<in>set xs. p x = Inr (q x) \<Longrightarrow> filterE p xs = Inr (filter q xs)"
  by (induction xs) simp_all

lemma mapE_total:
  "\<forall>x\<in>set xs. \<exists>y. f x = Inr y
   \<Longrightarrow> \<exists>ys. mapE f xs = Inr ys \<and> list_all2 (\<lambda>x y. f x = Inr y) xs ys"
proof (induction xs)
  case Nil
  then show ?case by simp
next
  case (Cons x xs)
  then obtain y ys where "f x = Inr y" "mapE f xs = Inr ys" "list_all2 (\<lambda>x y. f x = Inr y) xs ys"
    by auto
  then show ?case by simp
qed

lemma method_filter_well_formed:
  "method_well_formed m \<Longrightarrow> method_filter m = Inr (method_kept m)"
  by (auto simp: method_well_formed_def method_filter_def method_kept_def
        shouldIgnoreDocumentationItem_def split: list.splits option.splits)

lemma method_kept_row:
  "method_kept m \<Longrightarrow> \<exists>row. method_row m = Inr row"
  by (auto simp: method_kept_def method_row_def split: list.splits option.splits)

lemma property_filter_well_formed:
  "property_well_formed p \<Longrightarrow> property_filter p = Inr (property_kept p)"
  by (auto simp: property_well_formed_def property_filter_def property_kept_def
        shouldIgnoreDocumentationItem_def split: option.splits)

lemma property_kept_row:
  "property_kept p \<Longrightarrow> \<exists>row. property_row p = Inr row"
  by (auto simp: property_kept_def property_row_def split: option.splits)

lemma method_row_contents:
  assumes "method_row m = Inr row"
  shows "\<exists>s rest d. signatures m = s # rest \<and> sig_documentation s = Some d
           \<and> row = \<lparr>methodSignature = m_name m @ sig_type s,
                    mm_documentation = map (\<lambda>c. if c = LF then CHR '' '' else c) (contentsRaw d)\<rparr>"
  using assms
  by (auto simp: method_row_def cleanComment_map split: list.splits option.splits)

lemma property_row_contents:
  assumes "property_row p = Inr row"
  shows "\<exists>d. p_documentation p = Some d
           \<and> row = \<lparr>mp_name = p_name p, mp_type = p_type p,
                    mp_documentation = map (\<lambda>c. if c = LF then CHR '' '' else c) (contentsRaw d)\<rparr>"
  using assms
  by (auto simp: property_row_def cleanComment_map split: option.splits)

lemma methods_output:
  assumes "dd esmodule = Some r" and "methods r = Some ms"
    and "\<forall>m\<in>set ms. method_well_formed m"
  shows "\<exists>rows. getDocumentationForMethods (Some dd) esmodule = Inr rows
           \<and> list_all2 (\<lambda>m row. \<exists>s rest d. signatures m = s # rest \<and> sig_documentation s = Some d
                 \<and> row = \<lparr>methodSignature = m_name m @ sig_type s,
                          mm_documentation = map (\<lambda>c. if c = LF then CHR '' '' else c) (contentsRaw d)\<rparr>)
               (filter method_kept ms) rows"
proof -
  have "filterE method_filter ms = Inr (filter method_kept ms)"
    using assms(3) by (intro filterE_total) (simp add: method_filter_well_formed)
  moreover obtain rows where rows: "mapE method_row (filter method_kept ms) = Inr rows"
      "list_all2 (\<lambda>m row. method_row m = Inr row) (filter method_kept ms) rows"
    using mapE_total [of "filter method_kept ms" method_row] by (auto simp: method_kept_row)
  moreover from rows(2)
  have "list_all2 (\<lambda>m row. \<exists>s rest d. signatures m = s # rest \<and> sig_documentation s = Some d
                 \<and> row = \<lparr>methodSignature = m_name m @ sig_type s,
                          mm_documentation = map (\<lambda>c. if c = LF then CHR '' '' else c) (contentsRaw d)\<rparr>)
               (filter method_kept ms) rows"
    by (rule list_all2_mono) (rule method_row_contents)
  ultimately show ?thesis
    using assms(1,2) by (simp add: getDocumentationForMethods_def)
qed

lemma properties_output:
  assumes "dd esmodule = Some r" and "properties r = Some ps"
    and "\<forall>p\<in>set ps. property_well_formed p"
  shows "\<exists>rows. getDocumentationProperties (Some dd) esmodule = Inr rows
           \<and> list_all2 (\<lambda>p row. \<exists>d. p_documentation p = Some d
                 \<and> row = \<lparr>mp_name = p_name p, mp_type = p_type p,
                          mp_documentation = map (\<lambda>c. if c = LF then CHR '' '' else c) (contentsRaw d)\<rparr>)
               (filter property_kept ps) rows"
proof -
  have "filterE property_filter ps = Inr (filter property_kept ps)"
    using assms(3) by (intro filterE_total) (simp add: property_filter_well_formed)
  moreover obtain rows where rows: "mapE property_row (filter property_kept ps) = Inr rows"
      "list_all2 (\<lambda>p row. property_row p = Inr row) (filter property_kept ps) rows"
    using mapE_total [of "filter property_kept ps" property_row] by (auto simp: property_kept_row)
  moreover from rows(2)
  have "list_all2 (\<lambda>p row. \<exists>d. p_documentation p = Some d
                 \<and> row = \<lparr>mp_name = p_name p, mp_type = p_type p,
                          mp_documentation = map (\<lambda>c. if c = LF then CHR '' '' else c) (contentsRaw d)\<rparr>)
               (filter property_kept ps) rows"
    by (rule list_all2_mono) (rule property_row_contents)
  ultimately show ?thesis
    using assms(1,2) by (simp add: getDocumentationProperties_def)
qed

lemma method_kept_iff:
  "method_kept m \<longleftrightarrow>
     (\<exists>f s rest. m_flags m = Some f \<and> signatures m = s # rest
        \<and> sig_documentation s \<noteq> None \<and> \<not> isProtected f \<and> \<not> isStatic f)"
  by (auto simp: method_kept_def split: option.splits list.splits)

lemma property_kept_iff:
  "property_kept p \<longleftrightarrow>
     (\<exists>f. p_flags p = Some f \<and> p_documentation p \<noteq> None \<and> \<not> isProtected f \<and> \<not> isStatic f)"
  by (auto simp: property_kept_def split: option.splits)

text \<open>
  Claim C3. For a module whose members have the shape the extraction engine gives them
  (flags, and for a method at least one signature), both \<^verbatim>\<open>getDocumentationForMethods\<close>
  and \<^verbatim>\<open>getDocumentationProperties\<close> return, and the rows of the output are, one for one
  and in order, those of exactly the members that are documented (a method on its first
  signature) and neither protected nor static. The row of such a method holds its name
  followed by the type of its first signature, and the documentation of that signature
  with a space for every line feed; the row of such a property holds its name, its type,
  and its documentation with a space for every line feed. No other member has a row.
\<close>

theorem members_kept_iff_documented_public:
  assumes "dd esmodule = Some r" and "methods r = Some ms" and "properties r = Some ps"
    and "\<forall>m\<in>set ms. method_well_formed m" and "\<forall>p\<in>set ps. property_well_formed p"
  shows "(\<exists>rows. getDocumentationForMethods (Some dd) esmodule = Inr rows
           \<and> list_all2 (\<lambda>m row. \<exists>s rest d. signatures m = s # rest \<and> sig_documentation s = Some d
                 \<and> row = \<lparr>methodSignature = m_name m @ sig_type s,
                          mm_documentation = map (\<lambda>c. if c = LF then CHR '' '' else c) (contentsRaw d)\<rparr>)
               (filter (\<lambda>m. \<exists>f s rest. m_flags m = Some f \<and> signatures m = s # rest
                          \<and> sig_documentation s \<noteq> None \<and> \<not> isProtected f \<and> \<not> isStatic f) ms)
               rows)
       \<and> (\<exists>rows. getDocumentationProperties (Some dd) esmodule = Inr rows
           \<and> list_all2 (\<lambda>p row. \<exists>d. p_documentation p = Some d
                 \<and> row = \<lparr>mp_name = p_name p, mp_type = p_type p,
                          mp_documentation = map (\<lambda>c. if c = LF then CHR '' '' else c) (contentsRaw d)\<rparr>)
               (filter (\<lambda>p. \<exists>f. p_flags p = Some f \<and> p_documentation p \<noteq> None
                          \<and> \<not> isProtected f \<and> \<not> isStatic f) ps)
               rows)"
  using methods_output [of dd esmodule r ms] properties_output [of dd esmodule r ps] assms
  unfolding method_kept_iff property_kept_iff
  by blast

theorem members_kept_iff_documented_public_witness:
  "[''MDCDrawer'' \<mapsto> drawer_module] ''MDCDrawer'' = Some drawer_module
   \<and> methods drawer_module = Some drawer_methods
   \<and> properties drawer_module = Some drawer_properties
   \<and> list_all method_well_formed drawer_methods
   \<and> list_all property_well_formed drawer_properties
   \<and> (\<exists>rows. getDocumentationForMethods (Some [''MDCDrawer'' \<mapsto> drawer_module]) ''MDCDrawer'' = Inr rows
           \<and> list_all2 (\<lambda>m row. \<exists>s rest d. signatures m = s # rest \<and> sig_documentation s = Some d
                 \<and> row = \<lparr>methodSignature = m_name m @ sig_type s,
                          mm_documentation = map (\<lambda>c. if c = LF then CHR '' '' else c) (contentsRaw d)\<rparr>)
               (filter (\<lambda>m. \<exists>f s rest. m_flags m = Some f \<and> signatures m = s # rest
                          \<and> sig_documentation s \<noteq> None \<and> \<not> isProtected f \<and> \<not> isStatic f) drawer_methods)
               rows)
   \<and> (\<exists>rows. getDocumentationProperties (Some [''MDCDrawer'' \<mapsto> drawer_module]) ''MDCDrawer'' = Inr rows
           \<and> list_all2 (\<lambda>p row. \<exists>d. p_documentation p = Some d
                 \<and> row = \<lparr>mp_name = p_name p, mp_type = p_type p,
                          mp_documentation = map (\<lambda>c. if c = LF then CHR '' '' else c) (contentsRaw d)\<rparr>)
               (filter (\<lambda>p. \<exists>f. p_flags p = Some f \<and> p_documentation p \<noteq> None
                          \<and> \<not> isProtected f \<and> \<not> isStatic f) drawer_properties)
               rows)
   \<and> getDocumentationForMethods (Some [''MDCDrawer'' \<mapsto> drawer_module]) ''MDCDrawer''
       = Inr [\<lparr>methodSignature = ''open() => void'', mm_documentation = ''Opens the drawer.''\<rparr>]
   \<and> getDocumentationProperties (Some [''MDCDrawer'' \<mapsto> drawer_module]) ''MDCDrawer''
       = Inr [\<lparr>mp_name = ''open'', mp_type = ''boolean'',
               mp_documentation = ''Whether the drawer is open.''\<rparr>]"
proof -
  have h1: "[''MDCDrawer'' \<mapsto> drawer_module] ''MDCDrawer'' = Some drawer_module"
    by simp
  have h2: "methods drawer_module = Some drawer_methods"
    and h3: "properties drawer_module = Some drawer_properties"
    by (simp_all add: drawer_module_def)
  have h4: "\<forall>m\<in>set drawer_methods. method_well_formed m"
    by (simp add: drawer_methods_def method_well_formed_def)
  have h5: "\<forall>p\<in>set drawer_properties. property_well_formed p"
    by (simp add: drawer_properties_def property_well_formed_def)
  from h4 have h4': "list_all method_well_formed drawer_methods"
    by (simp only: list_all_iff)
  from h5 have h5': "list_all property_well_formed drawer_properties"
    by (simp only: list_all_iff)
  have r1: "getDocumentationForMethods (Some [''MDCDrawer'' \<mapsto> drawer_module]) ''MDCDrawer''
       = Inr [\<lparr>methodSignature = ''open() => void'', mm_documentation = ''Opens the drawer.''\<rparr>]"
    by (simp add: getDocumentationForMethods_def drawer_module_def drawer_methods_def
        method_filter_def method_row_def shouldIgnoreDocumentationItem_def)
  have r2: "getDocumentationProperties (Some [''MDCDrawer'' \<mapsto> drawer_module]) ''MDCDrawer''
       = Inr [\<lparr>mp_name = ''open'', mp_type = ''boolean'',
               mp_documentation = ''Whether the drawer is open.''\<rparr>]"
    by (simp add: getDocumentationProperties_def drawer_module_def drawer_properties_def
        property_filter_def property_row_def shouldIgnoreDocumentationItem_def)
  show ?thesis
    using members_kept_iff_documented_public
            [of "[''MDCDrawer'' \<mapsto> drawer_module]" "''MDCDrawer''" drawer_module
                drawer_methods drawer_properties]
          h1 h2 h3 h4 h5 h4' h5' r1 r2
    by blast
qed

section \<open>Modules without members\<close>

lemma mset_insert_from_right:
  "mset (insert_from_right cmp x ys) = add_mset x (mset ys)"
  by (induction ys) simp_all

lemma mset_foldl_insert:
  "mset (foldl (\<lambda>sorted_rev x. insert_from_right cmp x sorted_rev) acc xs) = mset acc + mset xs"
  by (induction xs arbitrary: acc) (simp_all add: mset_insert_from_right)

lemma insertion_sort_is_array_sort:
  "is_array_sort insertion_sort"
  by (simp add: is_array_sort_def insertion_sort_def mset_foldl_insert)

text \<open>
  Claim C6. Whatever permutation the engine's sort returns, the list handed to the
  template function holds exactly the buffered records that have a method, a property or
  an event: a record whose three lists are all empty is never in it.
\<close>

theorem memberless_modules_not_rendered:
  assumes "is_array_sort engine_sort"
  shows "mset (template_modules engine_sort buffered) = filter_mset has_members (mset buffered)
         \<and> (\<forall>m\<in>set (template_modules engine_sort buffered).
               md_methods m \<noteq> [] \<or> md_properties m \<noteq> [] \<or> md_events m \<noteq> [])"
proof -
  have eq: "mset (template_modules engine_sort buffered) = filter_mset has_members (mset buffered)"
    using assms by (simp add: template_modules_def is_array_sort_def)
  have "set (template_modules engine_sort buffered) = set_mset (filter_mset has_members (mset buffered))"
    using eq by (metis set_mset_mset)
  then have "\<forall>m\<in>set (template_modules engine_sort buffered). has_members m"
    by simp
  with eq show ?thesis
    by (simp add: has_members_def)
qed

theorem memberless_modules_not_rendered_witness:
  "is_array_sort (insertion_sort :: ModuleMarkdown array_sort)
   \<and> mset (template_modules insertion_sort [named ''MDCDrawerAdapter'', with_method ''MDCDrawer''])
       = filter_mset has_members (mset [named ''MDCDrawerAdapter'', with_method ''MDCDrawer''])
   \<and> list_all (\<lambda>m. md_methods m \<noteq> [] \<or> md_properties m \<noteq> [] \<or> md_events m \<noteq> [])
         (template_modules insertion_sort [named ''MDCDrawerAdapter'', with_method ''MDCDrawer''])
   \<and> template_modules insertion_sort [named ''MDCDrawerAdapter'', with_method ''MDCDrawer'']
       = [with_method ''MDCDrawer'']"
proof -
  have "template_modules insertion_sort [named ''MDCDrawerAdapter'', with_method ''MDCDrawer'']
       = [with_method ''MDCDrawer'']"
    by (simp add: template_modules_def insertion_sort_def has_members_def named_def with_method_def)
  then show ?thesis
    using memberless_modules_not_rendered [OF insertion_sort_is_array_sort,
            of "[named ''MDCDrawerAdapter'', with_method ''MDCDrawer'']"]
          insertion_sort_is_array_sort
    by (simp only: list_all_iff) blast
qed

section \<open>The comparator\<close>

lemma lower_examples:
  "toLowerCase ''Foo'' = ''foo''"
  "toLowerCase ''FooAdapter'' = ''fooadapter''"
  "toLowerCase ''FooFoundation'' = ''foofoundation''"
  "toLowerCase ''BarAdapter'' = ''baradapter''"
  by code_simp+

text \<open>
  Claim C2 says the comparator defines a total order with untagged modules first, then
  adapters, then foundations. The comparator does not order an adapter before a
  foundation (it calls them equal, while the swapped call says the foundation comes
  later), calls an adapter equal to an untagged module, and puts a module before itself.
\<close>

theorem sortByModuleType_inconsistent:
  "sortByModuleType (named ''FooAdapter'') (named ''FooFoundation'') = 0
   \<and> sortByModuleType (named ''FooFoundation'') (named ''FooAdapter'') = 1
   \<and> sortByModuleType (named ''FooAdapter'') (named ''Foo'') = 0
   \<and> sortByModuleType (named ''Foo'') (named ''FooAdapter'') = -1
   \<and> sortByModuleType (named ''Foo'') (named ''Foo'') = -1
   \<and> sortByModuleType (named ''FooAdapter'') (named ''BarAdapter'') = 1"
  by (simp add: sortByModuleType_def named_def lower_examples js_includes_def indexOf_def
        FOUNDATION_def ADAPTER_def)


section \<open>Directories outside the allow-list\<close>

lemma readme_path_inject:
  "readme_path a = readme_path b \<Longrightarrow> a = b"
  by (simp add: readme_path_def)

lemma effects_only_for_allowed:
  "e \<in> set (generateMarkdownFileFromBuffer engine_sort templateFunction readFile buffer)
   \<Longrightarrow> \<exists>k. allowed k \<and> k \<in> fst ` set buffer
            \<and> (e = ReadFile (readme_path k) \<or> (\<exists>content. e = WriteFile (readme_path k) content))"
proof (induction buffer)
  case Nil
  then show ?case by simp
next
  case (Cons entry entries)
  obtain k buffered where entry: "entry = (k, buffered)"
    by (cases entry)
  show ?case
  proof (cases "allowed k")
    case False
    with Cons entry show ?thesis by auto
  next
    case True
    show ?thesis
    proof (cases "readFile (readme_path k)")
      case None
      with Cons.prems entry True show ?thesis by auto
    next
      case (Some readmeMd)
      with Cons.prems entry True
      consider "e = ReadFile (readme_path k)"
        | "\<exists>content. e = WriteFile (readme_path k) content"
        | "e \<in> set (generateMarkdownFileFromBuffer engine_sort templateFunction readFile entries)"
        by auto
      then show ?thesis
      proof cases
        case 1
        with True entry show ?thesis by auto
      next
        case 2
        with True entry show ?thesis by auto
      next
        case 3
        from Cons.IH [OF 3] show ?thesis by auto
      qed
    qed
  qed
qed

lemma generate_ignores_disallowed:
  "generateMarkdownFileFromBuffer engine_sort templateFunction readFile buffer
     = generateMarkdownFileFromBuffer engine_sort templateFunction readFile
         (filter (\<lambda>entry. allowed (fst entry)) buffer)"
  by (induction buffer) (auto split: option.splits)

lemma empty_key_not_allowed:
  "\<not> allowed ''''"
  by (simp add: allowed_def allowList_def js_includes_def indexOf_def)

text \<open>
  Claim C8. For a directory key that the allow-list does not match,
  \<^verbatim>\<open>generateMarkdownFileFromBuffer\<close> neither reads nor writes the README of that
  directory, whatever the accumulator holds; the file operations are those of the
  accumulator with every such group removed; and the empty key, under which the modules
  without a resolved directory are grouped, is not matched by the allow-list.
\<close>

theorem no_io_outside_allow_list:
  assumes "\<not> allowed directoryPath"
  shows "ReadFile (readme_path directoryPath)
           \<notin> set (generateMarkdownFileFromBuffer engine_sort templateFunction readFile buffer)
       \<and> (\<forall>content. WriteFile (readme_path directoryPath) content
           \<notin> set (generateMarkdownFileFromBuffer engine_sort templateFunction readFile buffer))
       \<and> generateMarkdownFileFromBuffer engine_sort templateFunction readFile buffer
           = generateMarkdownFileFromBuffer engine_sort templateFunction readFile
               (filter (\<lambda>entry. allowed (fst entry)) buffer)
       \<and> \<not> allowed ''''"
proof -
  have "e \<noteq> ReadFile (readme_path directoryPath) \<and> e \<noteq> WriteFile (readme_path directoryPath) content"
    if "e \<in> set (generateMarkdownFileFromBuffer engine_sort templateFunction readFile buffer)"
    for e content
    using effects_only_for_allowed [OF that] assms by (auto dest: readme_path_inject)
  then show ?thesis
    using generate_ignores_disallowed [of engine_sort templateFunction readFile buffer]
      empty_key_not_allowed
    by blast
qed

theorem no_io_outside_allow_list_witness:
  "\<not> allowed ''mdc-textfield''
   \<and> ReadFile (readme_path ''mdc-textfield'')
        \<notin> set (generateMarkdownFileFromBuffer insertion_sort example_template example_readFile example_buffer)
   \<and> (\<forall>content. WriteFile (readme_path ''mdc-textfield'') content
        \<notin> set (generateMarkdownFileFromBuffer insertion_sort example_template example_readFile example_buffer))
   \<and> generateMarkdownFileFromBuffer insertion_sort example_template example_readFile example_buffer
        = generateMarkdownFileFromBuffer insertion_sort example_template example_readFile
            (filter (\<lambda>entry. allowed (fst entry)) example_buffer)
   \<and> \<not> allowed ''''"
proof -
  have h: "\<not> allowed ''mdc-textfield''"
    by (simp add: allowed_def allowList_def js_includes_def indexOf_def)
  show ?thesis
    using no_io_outside_allow_list [OF h, of insertion_sort example_template example_readFile example_buffer] h
    by blast
qed

lemma example_buffer_effects:
  "map (\<lambda>e. case e of ReadFile p \<Rightarrow> p | WriteFile p c \<Rightarrow> p)
     (generateMarkdownFileFromBuffer insertion_sort example_template example_readFile example_buffer)
   = [''./packages/mdc-drawer/README.md'', ''./packages/mdc-drawer/README.md'']"
  by (simp add: example_buffer_def allowed_def allowList_def js_includes_def indexOf_def
        example_readFile_def readme_path_def README_FILE_def)

section \<open>The directory of a source file\<close>

lemma getFilePathName_returns:
  "\<exists>found. getFilePathName readmeExists (Suc stack) filePath = Inr found"
  by (cases "getFilePathName readmeExists stack (directoryPath_of filePath)") simp_all

lemma getFilePathName_has_readme:
  "getFilePathName readmeExists stack filePath = Inr found \<Longrightarrow> found = '''' \<or> readmeExists found"
proof (induction stack arbitrary: filePath)
  case 0
  then show ?case by simp
next
  case (Suc stack)
  then show ?case
    by (cases "getFilePathName readmeExists stack (directoryPath_of filePath)")
       (auto split: if_splits)
qed

lemma getFilePathName_no_readme:
  assumes "\<And>q. q \<in> S \<Longrightarrow> directoryPath_of q \<in> S \<and> \<not> readmeExists (directoryPath_of q)"
    and "filePath \<in> S"
  shows "getFilePathName readmeExists (Suc stack) filePath = Inr ''''"
  using assms(2)
proof (induction stack arbitrary: filePath)
  case 0
  with assms(1) show ?case by simp
next
  case (Suc stack)
  from assms(1) [OF Suc.prems] have "directoryPath_of filePath \<in> S"
    and "\<not> readmeExists (directoryPath_of filePath)" by simp_all
  with Suc.IH [of "directoryPath_of filePath"] show ?case by simp
qed

lemma directoryPath_of_examples:
  "directoryPath_of ''packages/mdc-a/mdc-b/x.ts'' = ''mdc-a/mdc-b''"
  "directoryPath_of ''mdc-a/mdc-b'' = ''/''"
  "directoryPath_of ''/'' = ''''"
  "directoryPath_of '''' = ''''"
  "directoryPath_of ''packages/mdc-foo/foo.ts'' = ''mdc-foo''"
  "directoryPath_of ''mdc-foo'' = ''''"
  by (simp_all add: directoryPath_of_def indexOf_def lastIndexOf_def substring_def)

text \<open>
  Claim C1 says that \<^verbatim>\<open>getFilePathName\<close> walks up through the parent directories and
  returns the first directory with a README, or the empty string once the path is
  exhausted. For a source file in a directory whose name begins with \<^verbatim>\<open>mdc-\<close> inside a
  package (\<^verbatim>\<open>packages/mdc-a/mdc-b/x.ts\<close>, where \<^verbatim>\<open>packages/mdc-a/README.md\<close> exists and
  no other README does), the call returns the empty string, whatever room the call stack
  has, although the parent directory \<^verbatim>\<open>mdc-a\<close> has a README. The recursive call cuts
  its argument at \<^verbatim>\<open>/mdc-\<close> again: the directory path of \<^verbatim>\<open>mdc-a/mdc-b\<close> is \<^verbatim>\<open>/\<close>, not
  \<^verbatim>\<open>mdc-a\<close>, the one of \<^verbatim>\<open>/\<close> is the empty path, and the one of the empty path is the
  empty path again, where the recursion stays until the stack is used up.
\<close>

theorem getFilePathName_skips_parent:
  "getFilePathName (\<lambda>d. d = ''mdc-a'') (Suc stack) ''packages/mdc-a/mdc-b/x.ts'' = Inr ''''
   \<and> directoryPath_of ''packages/mdc-a/mdc-b/x.ts'' = ''mdc-a/mdc-b''
   \<and> directoryPath_of ''mdc-a/mdc-b'' = ''/''
   \<and> directoryPath_of ''/'' = ''''
   \<and> directoryPath_of '''' = ''''"
proof -
  have "getFilePathName (\<lambda>d. d = ''mdc-a'') (Suc stack) ''packages/mdc-a/mdc-b/x.ts'' = Inr ''''"
    by (rule getFilePathName_no_readme
              [where S = "{''packages/mdc-a/mdc-b/x.ts'', ''mdc-a/mdc-b'', ''/'', ''''}"])
       (auto simp: directoryPath_of_examples)
  then show ?thesis by (simp add: directoryPath_of_examples)
qed

lemma getFilePathName_found:
  "getFilePathName (\<lambda>d. d = ''mdc-textfield'') (Suc (Suc stack))
       ''packages/mdc-textfield/helper-text/foundation.ts''
     = Inr ''mdc-textfield''"
  by (simp add: directoryPath_of_def indexOf_def lastIndexOf_def substring_def)

lemma getFilePathName_exhausted:
  "getFilePathName (\<lambda>d. d = ''mdc-drawer'') (Suc stack) ''packages/mdc-foo/foo.ts'' = Inr ''''"
  by (rule getFilePathName_no_readme [where S = "{''packages/mdc-foo/foo.ts'', ''mdc-foo'', ''''}"])
     (auto simp: directoryPath_of_examples)

declare replace_scan.simps(2) [simp del]

section \<open>The two tokens\<close>









lemma at_line_end_simps:
  "at_line_end [] = True" "at_line_end (c # cs) = is_line_terminator c"
  by (simp_all add: at_line_end_def)


section \<open>What the matcher finds\<close>

lemma match_end_Some:
  "match_end t = Some (b, r) \<longleftrightarrow> b = [] \<and> t = endReplacerToken @ r \<and> at_line_end r"
  by (auto simp: match_end_def prefix_def)

lemma match_end_None:
  "match_end t = None \<longleftrightarrow> \<not> (\<exists>r. t = endReplacerToken @ r \<and> at_line_end r)"
  by (auto simp: match_end_def prefix_def)

lemma match_body_sound:
  "match_body t = Some (b, r) \<Longrightarrow> t = b @ endReplacerToken @ r \<and> list_all matches_group b \<and> at_line_end r"
proof (induction t arbitrary: b)
  case Nil
  then show ?case by (simp add: match_end_Some at_line_end_simps)
next
  case (Cons c cs)
  show ?case
  proof (cases "matches_group c")
    case False
    with Cons.prems show ?thesis by (simp add: match_end_Some)
  next
    case True
    show ?thesis
    proof (cases "match_body cs")
      case None
      with Cons.prems True show ?thesis by (simp add: match_end_Some)
    next
      case (Some found)
      obtain b' r' where found: "found = (b', r')" by (cases found)
      with Cons.prems True Some have "b = c # b'" "r = r'" by simp_all
      with Cons.IH [of b'] Some found True show ?thesis
        by simp
    qed
  qed
qed








lemma match_here_sound:
  assumes "match_here t = Some (b, r)"
  shows "t = matched_text b @ r \<and> list_all matches_group b \<and> at_line_end r"
proof -
  from assms have p: "prefix (startReplacerToken @ [U_LF]) t"
    and m: "match_body (drop (length startReplacerToken + 1) t) = Some (b, r)"
    by (simp_all add: match_here_def split: if_splits)
  from p obtain t' where t': "t = (startReplacerToken @ [U_LF]) @ t'"
    by (auto simp: prefix_def)
  then have "drop (length startReplacerToken + 1) t = t'" by simp
  with m match_body_sound [of t' b r] t' show ?thesis
    by (simp add: matched_text_def)
qed




section \<open>Beyond a code unit the group rejects\<close>




section \<open>The scan\<close>






lemma replace_scan_miss:
  assumes "at_line_start c \<longrightarrow> match_here (x # xs) = None"
  shows "replace_scan template c (x # xs) = x # replace_scan template (c @ [x]) xs"
  using assms by (auto simp: replace_scan.simps(2))

lemma scan_prefix:
  "no_match_in c p w \<Longrightarrow> replace_scan template c (p @ w) = p @ replace_scan template (c @ p) w"
proof (induction p arbitrary: c)
  case Nil
  then show ?case by simp
next
  case (Cons x p)
  then have miss: "at_line_start c \<longrightarrow> match_here (x # (p @ w)) = None"
    and rest: "no_match_in (c @ [x]) p w"
    by simp_all
  have "replace_scan template c (x # (p @ w)) = x # replace_scan template (c @ [x]) (p @ w)"
    by (rule replace_scan_miss [OF miss])
  also have "replace_scan template (c @ [x]) (p @ w) = p @ replace_scan template ((c @ [x]) @ p) w"
    by (rule Cons.IH [OF rest])
  finally show ?case by simp
qed


lemma no_match_inI:
  assumes "\<And>p1 p2. p = p1 @ p2 \<Longrightarrow> p2 \<noteq> [] \<Longrightarrow> at_line_start (c @ p1)
             \<Longrightarrow> match_here (p2 @ w) = None"
  shows "no_match_in c p w"
  using assms
proof (induction p arbitrary: c)
  case Nil
  then show ?case by simp
next
  case (Cons x p)
  have "no_match_in (c @ [x]) p w"
  proof (rule Cons.IH)
    fix p1 p2 assume "p = p1 @ p2" "p2 \<noteq> []" "at_line_start ((c @ [x]) @ p1)"
    then show "match_here (p2 @ w) = None"
      using Cons.prems [of "x # p1" p2] by simp
  qed
  moreover have "at_line_start c \<longrightarrow> match_here (x # p @ w) = None"
    using Cons.prems [of "[]" "x # p"] by simp
  ultimately show ?case by simp
qed














section \<open>Fragments without a substitution pattern\<close>







section \<open>Sentinels and where they can stand\<close>








section \<open>Running the writer twice\<close>





section \<open>A README without a region\<close>

text \<open>
  Claim C9. If no part of the README matches the pattern (the start token at a line
  start and followed by a line feed, then code units the group \<^verbatim>\<open>(.|\n)\<close> accepts, which
  are all but CR, U+2028 and U+2029, then the end token at a line end), the splice
  returns the README unchanged, whatever the fragment.
\<close>

theorem splice_without_region_unchanged:
  assumes "\<not> (\<exists>pre body post.
              readmeMd = pre @ startReplacerToken @ [U_LF] @ body @ endReplacerToken @ post
              \<and> at_line_start pre \<and> list_all matches_group body \<and> at_line_end post)"
  shows "splice readmeMd apiMarkdownTable = readmeMd"
proof -
  have "no_match_in [] readmeMd []"
  proof (rule no_match_inI)
    fix p1 p2 assume split: "readmeMd = p1 @ p2" and start: "at_line_start ([] @ p1)"
    show "match_here (p2 @ []) = None"
    proof (cases "match_here (p2 @ [])")
      case None
      then show ?thesis .
    next
      case (Some found)
      obtain b r where "found = (b, r)" by (cases found)
      with Some have "match_here p2 = Some (b, r)" by simp
      from match_here_sound [OF this]
      have "p2 = matched_text b @ r" "list_all matches_group b" "at_line_end r" by simp_all
      with split start
      have "readmeMd = p1 @ startReplacerToken @ [U_LF] @ b @ endReplacerToken @ r
            \<and> at_line_start p1 \<and> list_all matches_group b \<and> at_line_end r"
        by (simp add: matched_text_def)
      with assms show ?thesis by blast
    qed
  qed
  from scan_prefix [OF this, of "replacement_template apiMarkdownTable"]
  show ?thesis by (simp add: splice_def js_replace_def)
qed

theorem splice_without_region_unchanged_witness:
  "\<not> (\<exists>pre body post.
        plain_readme = pre @ startReplacerToken @ [U_LF] @ body @ endReplacerToken @ post
        \<and> at_line_start pre \<and> list_all matches_group body \<and> at_line_end post)
   \<and> splice plain_readme example_table = plain_readme"
proof -
  have "unit_of (CHR ''<'') \<notin> set plain_readme"
    by (simp add: plain_readme_def units_def)
  moreover have "unit_of (CHR ''<'') \<in> set startReplacerToken"
    by (simp add: startReplacerToken_def units_def)
  ultimately have h: "\<not> (\<exists>pre body post.
        plain_readme = pre @ startReplacerToken @ [U_LF] @ body @ endReplacerToken @ post
        \<and> at_line_start pre \<and> list_all matches_group body \<and> at_line_end post)"
    by (metis UnCI set_append)
  show ?thesis
    using splice_without_region_unchanged [OF h, of example_table] h by blast
qed

section \<open>Replacing the region\<close>







end
